theory Spec2Isabelle
  imports Complex_Main "HOL-Library.AList" "HOL-Library.Sublist"
begin

section \<open>Python values, exceptions and subscripting\<close>

text \<open>
  The notebook \<^verbatim>\<open>constructing_drive_time_based_service_areas.ipynb\<close> handles
  the values a JSON response parses to: \<^verbatim>\<open>None\<close>, booleans, numbers, strings, lists
  and dictionaries. A dictionary is an association list; a lookup takes the first
  entry of a key. Numbers are rationals, so that \<^verbatim>\<open>5\<close> and \<^verbatim>\<open>5.0\<close> are the same key
  of a dictionary, as they are in Python.
\<close>

datatype pyval =
    PNone
  | PBool bool
  | PNum rat
  | PStr string
  | PList "pyval list"
  | PDict "(string \<times> pyval) list"

text \<open>
  The exceptions the notebook's statements can raise; \<open>RemoteError\<close> is an exception
  a call to the remote service ends with. \<open>NoMatch\<close> is the dedicated condition for a
  geocoding miss; it is part of the type so that statements about it can be written, and
  no statement of the notebook raises it.
\<close>

datatype pyerror = KeyError | IndexError | TypeError | RemoteError | NoMatch

text \<open>Sequencing of statements that may raise: the first exception ends the cell.\<close>

definition and_then :: "pyerror + 'a \<Rightarrow> ('a \<Rightarrow> pyerror + 'b) \<Rightarrow> pyerror + 'b" where
  "and_then m f = (case m of Inl e \<Rightarrow> Inl e | Inr x \<Rightarrow> f x)"

text \<open>
  \<^verbatim>\<open>d[k]\<close> with a string key \<open>k\<close>: a dictionary without the key raises
  \<^verbatim>\<open>KeyError\<close>; every other value raises \<^verbatim>\<open>TypeError\<close> (a list or string wants
  an integer index, the rest is not subscriptable).
\<close>

fun getitem :: "pyval \<Rightarrow> string \<Rightarrow> pyerror + pyval" where
  "getitem (PDict kvs) k = (case map_of kvs k of None \<Rightarrow> Inl KeyError | Some v \<Rightarrow> Inr v)"
| "getitem _ k = Inl TypeError"

text \<open>
  \<^verbatim>\<open>for x in v\<close>: a list yields its elements, a dictionary its keys, a string its
  characters; anything else is not iterable.
\<close>

fun iter :: "pyval \<Rightarrow> pyerror + pyval list" where
  "iter (PList xs) = Inr xs"
| "iter (PDict kvs) = Inr (map (\<lambda>kv. PStr (fst kv)) kvs)"
| "iter (PStr s) = Inr (map (\<lambda>c. PStr [c]) s)"
| "iter _ = Inl TypeError"

text \<open>\<^verbatim>\<open>xs[0]\<close> on a Python list.\<close>

definition getitem0 :: "'a list \<Rightarrow> pyerror + 'a" where
  "getitem0 xs = (case xs of [] \<Rightarrow> Inl IndexError | x # _ \<Rightarrow> Inr x)"

text \<open>\<^verbatim>\<open>xs[j]\<close> on a Python list, for a counter \<open>j\<close> that starts at 0 and only grows.\<close>

definition getitem_at :: "'a list \<Rightarrow> nat \<Rightarrow> pyerror + 'a" where
  "getitem_at xs j = (if j < length xs then Inr (xs ! j) else Inl IndexError)"

section \<open>Features and feature sets\<close>

text \<open>
  Modelled from the spec: the classes \<^verbatim>\<open>Feature\<close> and \<^verbatim>\<open>FeatureSet\<close> belong to the
  \<^verbatim>\<open>arcgis\<close> package, which the notebook imports. Their constructors keep the values
  they are given, which the properties \<^verbatim>\<open>geometry\<close>, \<^verbatim>\<open>attributes\<close>,
  \<^verbatim>\<open>features\<close>, \<^verbatim>\<open>geometry_type\<close> and \<^verbatim>\<open>spatial_reference\<close> read back.
\<close>

record feature =
  geometry :: pyval
  attributes :: pyval

record featureset =
  features :: "feature list"
  geometry_type :: pyval
  spatial_reference :: pyval

definition Feature :: "pyval \<Rightarrow> pyval \<Rightarrow> feature" where
  "Feature g a = \<lparr>geometry = g, attributes = a\<rparr>"

definition FeatureSet :: "feature list \<Rightarrow> pyval \<Rightarrow> pyval \<Rightarrow> featureset" where
  "FeatureSet fs gt sr = \<lparr>features = fs, geometry_type = gt, spatial_reference = sr\<rparr>"

section \<open>Reading a solver response back as a feature set\<close>

text \<open>
  The loop of the cell after the single solve:
  \<^verbatim>\<open>
  poly_feat_list = []
  for polygon_dict in result['saPolygons']['features']:
      f1 = Feature(polygon_dict['geometry'], polygon_dict['attributes'])
      poly_feat_list.append(f1)
  \<close>
  The second argument is the list as appended to so far.
\<close>

fun poly_feat_loop :: "pyval list \<Rightarrow> feature list \<Rightarrow> pyerror + feature list" where
  "poly_feat_loop [] poly_feat_list = Inr poly_feat_list"
| "poly_feat_loop (polygon_dict # rest) poly_feat_list =
     and_then (getitem polygon_dict ''geometry'') (\<lambda>g.
     and_then (getitem polygon_dict ''attributes'') (\<lambda>a.
     poly_feat_loop rest (poly_feat_list @ [Feature g a])))"

definition poly_feat_list_of :: "pyval \<Rightarrow> pyerror + feature list" where
  "poly_feat_list_of result =
     and_then (getitem result ''saPolygons'') (\<lambda>sa.
     and_then (getitem sa ''features'') (\<lambda>fv.
     and_then (iter fv) (\<lambda>polys.
     poly_feat_loop polys [])))"

text \<open>
  The next cell:
  \<^verbatim>\<open>
  service_area_fset = FeatureSet(poly_feat_list,
                           geometry_type=result['saPolygons']['geometryType'],
                           spatial_reference= result['saPolygons']['spatialReference'])
  \<close>
\<close>

definition service_area_fset_of :: "pyval \<Rightarrow> pyerror + featureset" where
  "service_area_fset_of result =
     and_then (poly_feat_list_of result) (\<lambda>poly_feat_list.
     and_then (getitem result ''saPolygons'') (\<lambda>sa1.
     and_then (getitem sa1 ''geometryType'') (\<lambda>gt.
     and_then (getitem result ''saPolygons'') (\<lambda>sa2.
     and_then (getitem sa2 ''spatialReference'') (\<lambda>sr.
     Inr (FeatureSet poly_feat_list gt sr))))))"

text \<open>
  The cell that processes the results of the time-of-day solves repeats the conversion
  inside its loop:
  \<^verbatim>\<open>
  SD_fset_list=[]
  for result in sa_results:
      poly_feat_list = []
      for polygon_dict in result['saPolygons']['features']:
          f1 = Feature(polygon_dict['geometry'], polygon_dict['attributes'])
          poly_feat_list.append(f1)

      service_area_fset = FeatureSet(poly_feat_list,
                           geometry_type=result['saPolygons']['geometryType'],
                           spatial_reference= result['saPolygons']['spatialReference'])

      SD_fset_list.append(service_area_fset)
  \<close>
  \<open>SD_poly_feat_loop\<close> is its inner loop, \<open>SD_fset_of_result\<close> the body of its outer
  loop and \<open>SD_fset_loop\<close> the outer loop.
\<close>

fun SD_poly_feat_loop :: "pyval list \<Rightarrow> feature list \<Rightarrow> pyerror + feature list" where
  "SD_poly_feat_loop [] poly_feat_list = Inr poly_feat_list"
| "SD_poly_feat_loop (polygon_dict # rest) poly_feat_list =
     and_then (getitem polygon_dict ''geometry'') (\<lambda>g.
     and_then (getitem polygon_dict ''attributes'') (\<lambda>a.
     SD_poly_feat_loop rest (poly_feat_list @ [Feature g a])))"

definition SD_fset_of_result :: "pyval \<Rightarrow> pyerror + featureset" where
  "SD_fset_of_result result =
     and_then (getitem result ''saPolygons'') (\<lambda>sa.
     and_then (getitem sa ''features'') (\<lambda>fv.
     and_then (iter fv) (\<lambda>polys.
     and_then (SD_poly_feat_loop polys []) (\<lambda>poly_feat_list.
     and_then (getitem result ''saPolygons'') (\<lambda>sa1.
     and_then (getitem sa1 ''geometryType'') (\<lambda>gt.
     and_then (getitem result ''saPolygons'') (\<lambda>sa2.
     and_then (getitem sa2 ''spatialReference'') (\<lambda>sr.
     Inr (FeatureSet poly_feat_list gt sr)))))))))"

fun SD_fset_loop :: "pyval list \<Rightarrow> featureset list \<Rightarrow> pyerror + featureset list" where
  "SD_fset_loop [] SD_fset_list = Inr SD_fset_list"
| "SD_fset_loop (result # rest) SD_fset_list =
     and_then (SD_fset_of_result result) (\<lambda>service_area_fset.
     SD_fset_loop rest (SD_fset_list @ [service_area_fset]))"

section \<open>What the notebook does to the outside\<close>

text \<open>
  The notebook draws on two map widgets, calls the remote solver, prints and sleeps.
  A run is recorded as the list of these events, in the order they happen.

  A dictionary that the notebook mutates lives in a store of dictionaries by address,
  and a variable bound to it holds the address. A draw call that is given such a
  dictionary as its symbol is recorded with the address it received and with the
  contents of the dictionary at the time of the call.
\<close>

type_synonym dict = "(string \<times> pyval) list"

type_synonym store = "nat \<Rightarrow> dict"

datatype widget = Map1 | Map2

datatype shape = Geom pyval | FSet featureset

record request =
  facilities :: featureset
  default_breaks :: "rat list"
  travel_direction :: string
  travel_mode :: "pyval option"
  time_of_day :: "rat option"
  time_of_day_is_utc :: "bool option"

datatype event =
    Request request
  | Response pyval
  | ClearGraphics widget
  | Draw widget shape "(nat \<times> dict) option" "pyval option"
  | Print string
  | Sleep nat

text \<open>
  Modelled from the spec: the map widget belongs to the \<^verbatim>\<open>arcgis\<close> package. It is
  a stateful drawable surface that renders what is drawn on it and supports clearing all
  drawn graphics. \<open>visible w tr\<close> is what widget \<open>w\<close> shows after the events \<open>tr\<close>.
\<close>

fun show_event :: "widget \<Rightarrow> shape list \<Rightarrow> event \<Rightarrow> shape list" where
  "show_event w shown (ClearGraphics w') = (if w' = w then [] else shown)"
| "show_event w shown (Draw w' sh symb popup) = (if w' = w then shown @ [sh] else shown)"
| "show_event w shown _ = shown"

definition visible :: "widget \<Rightarrow> event list \<Rightarrow> shape list" where
  "visible w tr = foldl (show_event w) [] tr"

section \<open>Geocoding the facility\<close>

text \<open>
  \<^verbatim>\<open>
  sd_geocode = geocode('San Diego Convention Center')[0]
  sd_geocode['location']

  f1 = Feature(geometry=sd_geocode['location'])
  fset = FeatureSet([f1], geometry_type='esriGeometryPoint',
                              spatial_reference={'latestWkid': 4326})
  map1.draw(fset)
  \<close>
  \<open>candidates\<close> is the list the geocoder returned. A feature built without attributes
  has \<^verbatim>\<open>None\<close> for them.
\<close>

definition facility_fset_of :: "pyval list \<Rightarrow> pyerror + featureset" where
  "facility_fset_of candidates =
     and_then (getitem0 candidates) (\<lambda>sd_geocode.
     and_then (getitem sd_geocode ''location'') (\<lambda>shown.
     and_then (getitem sd_geocode ''location'') (\<lambda>location.
     Inr (FeatureSet [Feature location PNone] (PStr ''esriGeometryPoint'')
            (PDict [(''latestWkid'', PNum 4326)])))))"

definition draw_facility :: "pyval list \<Rightarrow> event list \<Rightarrow> (pyerror + featureset) \<times> event list" where
  "draw_facility candidates tr =
     (case facility_fset_of candidates of
        Inl e \<Rightarrow> (Inl e, tr)
      | Inr fset \<Rightarrow> (Inr fset, tr @ [Draw Map1 (FSet fset) None None]))"

text \<open>
  \<^verbatim>\<open>
  balboa_park = geocode('Balboa park, San Diego, CA')[0]
  map1.draw(balboa_park['location'])
  \<close>
\<close>

definition draw_balboa_park :: "pyval list \<Rightarrow> event list \<Rightarrow> pyerror option \<times> event list" where
  "draw_balboa_park candidates tr =
     (case and_then (getitem0 candidates) (\<lambda>balboa_park. getitem balboa_park ''location'') of
        Inl e \<Rightarrow> (Some e, tr)
      | Inr location \<Rightarrow> (None, tr @ [Draw Map1 (Geom location) None None]))"

section \<open>Selecting the travel mode\<close>

text \<open>
  \<^verbatim>\<open>
  truck_mode = [t for t in travel_modes['supportedTravelModes'] if t['name'] == 'Driving Time'][0]
  \<close>
  The comprehension reads the name of every entry before the result is indexed.
\<close>

fun driving_time_modes :: "pyval list \<Rightarrow> pyerror + pyval list" where
  "driving_time_modes [] = Inr []"
| "driving_time_modes (t # ts) =
     and_then (getitem t ''name'') (\<lambda>name.
     and_then (driving_time_modes ts) (\<lambda>selected.
     Inr (if name = PStr ''Driving Time'' then t # selected else selected)))"

definition truck_mode_of :: "pyval \<Rightarrow> pyerror + pyval" where
  "truck_mode_of travel_modes =
     and_then (getitem travel_modes ''supportedTravelModes'') (\<lambda>modes.
     and_then (iter modes) (\<lambda>ts.
     and_then (driving_time_modes ts) getitem0))"

section \<open>Drawing the service areas\<close>

text \<open>
  \<^verbatim>\<open>
  colors = {5: [0, 128, 0, 90],
            10: [255, 255, 0, 90],
            15: [255, 0, 0, 90]}

  fill_symbol = {"type": "esriSFS","style": "esriSFSSolid",
                 "color": [115,76,0,255]}
  \<close>
\<close>

definition colors :: "(rat \<times> pyval) list" where
  "colors = [(5, PList [PNum 0, PNum 128, PNum 0, PNum 90]),
             (10, PList [PNum 255, PNum 255, PNum 0, PNum 90]),
             (15, PList [PNum 255, PNum 0, PNum 0, PNum 90])]"

definition fill_symbol_literal :: dict where
  "fill_symbol_literal = [(''type'', PStr ''esriSFS''), (''style'', PStr ''esriSFSSolid''),
                          (''color'', PList [PNum 115, PNum 76, PNum 0, PNum 255])]"

text \<open>
  \<^verbatim>\<open>colors[key]\<close>: the keys of \<^verbatim>\<open>colors\<close> are numbers. A number is looked up by its
  value, a boolean as 1 or 0; a list or a dictionary is not hashable
  (\<^verbatim>\<open>TypeError\<close>); \<^verbatim>\<open>None\<close> and strings are no key of the table.
\<close>

fun colors_getitem :: "pyval \<Rightarrow> pyerror + pyval" where
  "colors_getitem (PNum q) = (case map_of colors q of None \<Rightarrow> Inl KeyError | Some c \<Rightarrow> Inr c)"
| "colors_getitem (PBool b) =
     (case map_of colors (if b then 1 else 0) of None \<Rightarrow> Inl KeyError | Some c \<Rightarrow> Inr c)"
| "colors_getitem (PList xs) = Inl TypeError"
| "colors_getitem (PDict kvs) = Inl TypeError"
| "colors_getitem _ = Inl KeyError"

text \<open>\<^verbatim>\<open>d[k] = v\<close> on the dictionary at address \<open>a\<close>.\<close>

definition setitem :: "store \<Rightarrow> nat \<Rightarrow> string \<Rightarrow> pyval \<Rightarrow> store" where
  "setitem h a k v = h(a := AList.update k v (h a))"

text \<open>
  \<^verbatim>\<open>
  for service_area in service_area_fset.features:

      #set color based on drive time
      fill_symbol['color'] = colors[service_area.attributes['ToBreak']]

      #set popup
      popup={"title": "Service area",
              "content": "{} minutes".format(service_area.attributes['ToBreak'])}

      map1.draw(service_area.geometry, symbol=fill_symbol, popup=popup)
  \<close>
  \<open>fill_symbol\<close> is the address the variable holds, \<open>fmt\<close> is how \<^verbatim>\<open>str.format\<close>
  prints a value.
\<close>

fun render_loop :: "(pyval \<Rightarrow> string) \<Rightarrow> nat \<Rightarrow> feature list \<Rightarrow> store \<times> event list \<Rightarrow>
    pyerror option \<times> store \<times> event list" where
  "render_loop fmt fill_symbol [] (h, tr) = (None, h, tr)"
| "render_loop fmt fill_symbol (service_area # rest) (h, tr) =
     (case and_then (getitem (attributes service_area) ''ToBreak'') colors_getitem of
        Inl e \<Rightarrow> (Some e, h, tr)
      | Inr color \<Rightarrow>
          (let h1 = setitem h fill_symbol ''color'' color in
           case getitem (attributes service_area) ''ToBreak'' of
             Inl e \<Rightarrow> (Some e, h1, tr)
           | Inr to_break \<Rightarrow>
               (let popup = PDict [(''title'', PStr ''Service area''),
                                   (''content'', PStr (fmt to_break @ '' minutes''))]
                in render_loop fmt fill_symbol rest
                     (h1, tr @ [Draw Map1 (Geom (geometry service_area))
                                  (Some (fill_symbol, h1 fill_symbol)) (Some popup)]))))"

section \<open>Service areas for different times of the day\<close>

text \<open>
  The solver is the remote service behind \<^verbatim>\<open>sa_layer.solve_service_area\<close>: from its
  state and a request it either raises or returns a response, and leaves a new state.
  Keyword arguments that a call does not pass are \<open>None\<close> in the request.
  \<^verbatim>\<open>
  sa_results = []
  for daytime in times:
      result = sa_layer.solve_service_area(facilities=fset, default_breaks=[5,10,15],
                                           travel_direction='esriNATravelDirectionFromFacility',
                                           time_of_day=daytime, time_of_day_is_utc=False)
      sa_results.append(result)
  \<close>
\<close>

definition daytime_request :: "featureset \<Rightarrow> rat \<Rightarrow> request" where
  "daytime_request fset daytime =
     \<lparr>facilities = fset, default_breaks = [5, 10, 15],
      travel_direction = ''esriNATravelDirectionFromFacility'',
      travel_mode = None, time_of_day = Some daytime, time_of_day_is_utc = Some False\<rparr>"

fun solve_loop :: "('srv \<Rightarrow> request \<Rightarrow> (pyerror + pyval) \<times> 'srv) \<Rightarrow> featureset \<Rightarrow> rat list \<Rightarrow>
    pyval list \<Rightarrow> 'srv \<times> event list \<Rightarrow> (pyerror + pyval list) \<times> 'srv \<times> event list" where
  "solve_loop solve fset [] sa_results (s, tr) = (Inr sa_results, s, tr)"
| "solve_loop solve fset (daytime # rest) sa_results (s, tr) =
     (case solve s (daytime_request fset daytime) of
        (Inl e, s1) \<Rightarrow> (Inl e, s1, tr @ [Request (daytime_request fset daytime)])
      | (Inr result, s1) \<Rightarrow>
          solve_loop solve fset rest (sa_results @ [result])
            (s1, tr @ [Request (daytime_request fset daytime), Response result]))"

text \<open>
  \<^verbatim>\<open>
  times = [datetime(2017, 6, 10, h).timestamp() * 1000
           for h in [6, 10, 14, 18, 22]]
  \<close>
  \<open>timestamp h\<close> is the POSIX time in seconds of 10 June 2017, \<open>h\<close> o'clock, in the time
  zone of the machine. The list is named \<open>times_of_day\<close> here, since \<open>times\<close> is the
  multiplication of HOL.
\<close>

definition times_of_day :: "(nat \<Rightarrow> rat) \<Rightarrow> rat list" where
  "times_of_day timestamp = map (\<lambda>h. timestamp h * 1000) [6, 10, 14, 18, 22]"

text \<open>
  \<^verbatim>\<open>
  map2.clear_graphics()

  times = ['6 am', '10 am', '2 pm', '6 pm', '10 pm']
  time.sleep(2)
  loop = 3

  for l in range(loop):
      map2.clear_graphics()
      j=0
      for fset in SD_fset_list:
          print(times[j])
          map2.draw(fset)
          j+=1
          time.sleep(1)
  \<close>
  \<open>draw_loop\<close> is the inner loop from counter \<open>j\<close> on, \<open>animate_loop n\<close> the last \<open>n\<close>
  passes of the outer loop.
\<close>

definition time_labels :: "string list" where
  "time_labels = [''6 am'', ''10 am'', ''2 pm'', ''6 pm'', ''10 pm'']"

definition loop :: nat where
  "loop = 3"

fun draw_loop :: "string list \<Rightarrow> nat \<Rightarrow> featureset list \<Rightarrow> event list \<Rightarrow>
    pyerror option \<times> event list" where
  "draw_loop labels j [] tr = (None, tr)"
| "draw_loop labels j (fset # rest) tr =
     (case getitem_at labels j of
        Inl e \<Rightarrow> (Some e, tr)
      | Inr label \<Rightarrow>
          draw_loop labels (j + 1) rest
            (tr @ [Print label, Draw Map2 (FSet fset) None None, Sleep 1]))"

fun animate_loop :: "nat \<Rightarrow> string list \<Rightarrow> featureset list \<Rightarrow> event list \<Rightarrow>
    pyerror option \<times> event list" where
  "animate_loop 0 labels SD_fset_list tr = (None, tr)"
| "animate_loop (Suc n) labels SD_fset_list tr =
     (case draw_loop labels 0 SD_fset_list (tr @ [ClearGraphics Map2]) of
        (Some e, tr1) \<Rightarrow> (Some e, tr1)
      | (None, tr1) \<Rightarrow> animate_loop n labels SD_fset_list tr1)"

definition animate :: "nat \<Rightarrow> string list \<Rightarrow> featureset list \<Rightarrow> event list \<Rightarrow>
    pyerror option \<times> event list" where
  "animate n labels SD_fset_list tr =
     animate_loop n labels SD_fset_list (tr @ [ClearGraphics Map2, Sleep 2])"

text \<open>
  The three cells in a row: the solves, the conversion of their results and the
  animation. A run that ends without an exception leaves \<^verbatim>\<open>sa_results\<close> and
  \<^verbatim>\<open>SD_fset_list\<close>.
\<close>

definition time_of_day_cells :: "('srv \<Rightarrow> request \<Rightarrow> (pyerror + pyval) \<times> 'srv) \<Rightarrow> featureset \<Rightarrow>
    rat list \<Rightarrow> nat \<Rightarrow> string list \<Rightarrow> 'srv \<times> event list \<Rightarrow>
    (pyerror + pyval list \<times> featureset list) \<times> 'srv \<times> event list" where
  "time_of_day_cells solve fset daytimes n labels st =
     (case solve_loop solve fset daytimes [] st of
        (Inl e, s1, tr1) \<Rightarrow> (Inl e, s1, tr1)
      | (Inr sa_results, s1, tr1) \<Rightarrow>
          (case SD_fset_loop sa_results [] of
             Inl e \<Rightarrow> (Inl e, s1, tr1)
           | Inr SD_fset_list \<Rightarrow>
               (case animate n labels SD_fset_list tr1 of
                  (Some e, tr2) \<Rightarrow> (Inl e, s1, tr2)
                | (None, tr2) \<Rightarrow> (Inr (sa_results, SD_fset_list), s1, tr2))))"

section \<open>Notions the properties are stated with\<close>

text \<open>
  A value that can be the key of a dictionary: \<^verbatim>\<open>None\<close>, booleans, numbers and
  strings. The attribute values of a feature are of this kind.
\<close>

fun hashable :: "pyval \<Rightarrow> bool" where
  "hashable (PList xs) = False"
| "hashable (PDict kvs) = False"
| "hashable _ = True"

text \<open>
  The fixed table of fill colors as the specification states it, by the \<^verbatim>\<open>ToBreak\<close>
  attribute of a polygon: 5 is green [0,128,0,90], 10 is yellow [255,255,0,90], 15 is
  red [255,0,0,90]. It is written here without the dictionary \<open>colors\<close> of the notebook,
  to compare the lookup in that dictionary with.
\<close>

definition to_break_in_table :: "feature \<Rightarrow> bool" where
  "to_break_in_table sa =
     (getitem (attributes sa) ''ToBreak'' = Inr (PNum 5) \<or>
      getitem (attributes sa) ''ToBreak'' = Inr (PNum 10) \<or>
      getitem (attributes sa) ''ToBreak'' = Inr (PNum 15))"

definition table_color :: "feature \<Rightarrow> pyval option" where
  "table_color sa =
     (if getitem (attributes sa) ''ToBreak'' = Inr (PNum 5)
      then Some (PList [PNum 0, PNum 128, PNum 0, PNum 90])
      else if getitem (attributes sa) ''ToBreak'' = Inr (PNum 10)
      then Some (PList [PNum 255, PNum 255, PNum 0, PNum 90])
      else if getitem (attributes sa) ''ToBreak'' = Inr (PNum 15)
      then Some (PList [PNum 255, PNum 0, PNum 0, PNum 90])
      else None)"

text \<open>What a draw call was given: its shape, and the color entry of its symbol.\<close>

fun drawn_shape :: "event \<Rightarrow> shape option" where
  "drawn_shape (Draw w sh symb popup) = Some sh"
| "drawn_shape _ = None"

fun fill_color_passed :: "event \<Rightarrow> pyval option" where
  "fill_color_passed (Draw w sh (Some (a, d)) popup) = map_of d ''color''"
| "fill_color_passed _ = None"

text \<open>
  What the solver answers to a list of requests made one after the other: each request
  meets the state the call before it left.
\<close>

fun answers :: "('srv \<Rightarrow> request \<Rightarrow> (pyerror + pyval) \<times> 'srv) \<Rightarrow> 'srv \<Rightarrow> request list \<Rightarrow>
    (pyerror + pyval) list" where
  "answers solve s [] = []"
| "answers solve s (r # rs) = (case solve s r of (answer, s1) \<Rightarrow> answer # answers solve s1 rs)"

text \<open>
  The events of one pass of the animation after its clearing, and the events of a row of
  solver calls, each request followed by its response.
\<close>

definition pass_events :: "string list \<Rightarrow> featureset list \<Rightarrow> event list" where
  "pass_events labels fsets =
     concat (map (\<lambda>(label, fset). [Print label, Draw Map2 (FSet fset) None None, Sleep 1])
               (zip labels fsets))"

definition solve_events :: "request list \<Rightarrow> pyval list \<Rightarrow> event list" where
  "solve_events requests results =
     concat (map (\<lambda>(r, result). [Request r, Response result]) (zip requests results))"

section \<open>Sample inputs\<close>

text \<open>
  A response with two polygon features, as the single solve returns them (the rings
  shortened).
\<close>

definition sample_polygon :: "rat \<Rightarrow> rat \<Rightarrow> pyval" where
  "sample_polygon from_break to_break =
     PDict [(''attributes'', PDict [(''ObjectID'', PNum 1), (''FromBreak'', PNum from_break),
                                    (''ToBreak'', PNum to_break)]),
            (''geometry'', PDict [(''rings'', PList [PList [PNum to_break, PNum 0]])])]"

definition sample_response :: pyval where
  "sample_response =
     PDict [(''saPolygons'',
             PDict [(''geometryType'', PStr ''esriGeometryPolygon''),
                    (''spatialReference'', PDict [(''wkid'', PNum 4326), (''latestWkid'', PNum 4326)]),
                    (''features'', PList [sample_polygon 10 15, sample_polygon 5 10]),
                    (''fieldAliases'', PDict [])]),
            (''messages'', PList [])]"

text \<open>
  A catalog of travel modes with the names the notebook prints first, where two entries
  are named \<^verbatim>\<open>Driving Time\<close>, and a catalog without such an entry.
\<close>

definition travel_mode_named :: "string \<Rightarrow> rat \<Rightarrow> pyval" where
  "travel_mode_named name ident =
     PDict [(''id'', PNum ident), (''name'', PStr name), (''impedanceAttributeName'', PStr ''TravelTime'')]"

definition sample_travel_modes :: pyval where
  "sample_travel_modes =
     PDict [(''supportedTravelModes'',
             PList [travel_mode_named ''Walking Time'' 1,
                    travel_mode_named ''Rural Driving Distance'' 2,
                    travel_mode_named ''Driving Time'' 3,
                    travel_mode_named ''Driving Distance'' 4,
                    travel_mode_named ''Driving Time'' 5]),
            (''defaultTravelMode'', PStr ''FEgifRtFndKNcJMJ'')]"

definition walking_only_travel_modes :: pyval where
  "walking_only_travel_modes =
     PDict [(''supportedTravelModes'',
             PList [travel_mode_named ''Walking Time'' 1,
                    travel_mode_named ''Driving time'' 2])]"

text \<open>
  Service-area features as the conversion builds them, a store that holds the
  \<^verbatim>\<open>fill_symbol\<close> dictionary as the notebook creates it at address 7, and a
  formatter of the break values.
\<close>

definition sample_feature :: "rat \<Rightarrow> rat \<Rightarrow> feature" where
  "sample_feature from_break to_break =
     Feature (PDict [(''rings'', PList [PList [PNum to_break, PNum 0]])])
       (PDict [(''ObjectID'', PNum 1), (''FromBreak'', PNum from_break),
               (''ToBreak'', PNum to_break)])"

definition sample_store :: store where
  "sample_store = (\<lambda>a. [])(7 := fill_symbol_literal)"

definition sample_fmt :: "pyval \<Rightarrow> string" where
  "sample_fmt v = (if v = PNum 5 then ''5'' else if v = PNum 10 then ''10'' else ''15'')"

text \<open>
  A feature set of one service area, the facility of the notebook, and a solver that
  answers five calls and raises from the sixth on: its state is the number of calls so
  far. A response reports, in its messages, the number of calls before it and the
  \<^verbatim>\<open>time_of_day\<close> of the request it answers; its polygons are those of
  \<open>sample_response\<close>. The timestamps are those of a machine on Pacific Daylight Time.
\<close>

definition sample_fset :: "rat \<Rightarrow> featureset" where
  "sample_fset to_break =
     FeatureSet [sample_feature 0 to_break] (PStr ''esriGeometryPolygon'')
       (PDict [(''wkid'', PNum 4326)])"

definition sample_facility :: featureset where
  "sample_facility =
     FeatureSet [Feature (PDict [(''x'', PNum (-117)), (''y'', PNum 32)]) PNone]
       (PStr ''esriGeometryPoint'') (PDict [(''latestWkid'', PNum 4326)])"

definition sample_answer :: "nat \<Rightarrow> rat option \<Rightarrow> pyval" where
  "sample_answer calls daytime =
     PDict [(''saPolygons'',
             PDict [(''geometryType'', PStr ''esriGeometryPolygon''),
                    (''spatialReference'', PDict [(''wkid'', PNum 4326), (''latestWkid'', PNum 4326)]),
                    (''features'', PList [sample_polygon 10 15, sample_polygon 5 10]),
                    (''fieldAliases'', PDict [])]),
            (''messages'',
             PList [PNum (of_nat calls), (case daytime of None \<Rightarrow> PNone | Some t \<Rightarrow> PNum t)])]"

definition sample_solve :: "nat \<Rightarrow> request \<Rightarrow> (pyerror + pyval) \<times> nat" where
  "sample_solve calls r =
     (if calls < 5 then Inr (sample_answer calls (time_of_day r)) else Inl RemoteError, Suc calls)"

definition sample_timestamp :: "nat \<Rightarrow> rat" where
  "sample_timestamp h = 1497078000 + 3600 * of_nat h"

section \<open>Properties of the conversion\<close>

lemma and_then_Inr [simp]: "and_then (Inr x) f = f x"
  by (simp add: and_then_def)

lemma and_then_Inl [simp]: "and_then (Inl e) f = Inl e"
  by (simp add: and_then_def)

text \<open>
  On polygon features that all have a geometry and attributes, the loop appends one
  feature per polygon, in order, to the list it started from.
\<close>

lemma poly_feat_loop_appends:
  assumes "\<forall>p\<in>set polys. \<exists>g a. getitem p ''geometry'' = Inr g \<and> getitem p ''attributes'' = Inr a"
  shows "\<exists>fs. poly_feat_loop polys acc = Inr (acc @ fs) \<and> length fs = length polys \<and>
           (\<forall>i<length polys. getitem (polys ! i) ''geometry'' = Inr (geometry (fs ! i)) \<and>
                              getitem (polys ! i) ''attributes'' = Inr (attributes (fs ! i)))"
  using assms
proof (induction polys arbitrary: acc)
  case Nil
  then show ?case by simp
next
  case (Cons p ps)
  from Cons.prems obtain g a where
    ga: "getitem p ''geometry'' = Inr g" "getitem p ''attributes'' = Inr a"
    by auto
  from Cons.prems have rest:
    "\<forall>q\<in>set ps. \<exists>g a. getitem q ''geometry'' = Inr g \<and> getitem q ''attributes'' = Inr a"
    by simp
  from Cons.IH [OF rest, of "acc @ [Feature g a]"] obtain fs where
    fs: "poly_feat_loop ps (acc @ [Feature g a]) = Inr ((acc @ [Feature g a]) @ fs)"
        "length fs = length ps"
        "\<forall>i<length ps. getitem (ps ! i) ''geometry'' = Inr (geometry (fs ! i)) \<and>
                         getitem (ps ! i) ''attributes'' = Inr (attributes (fs ! i))"
    by blast
  have "poly_feat_loop (p # ps) acc = Inr (acc @ (Feature g a # fs))"
    using ga fs(1) by simp
  moreover have "length (Feature g a # fs) = length (p # ps)"
    using fs(2) by simp
  moreover have "\<forall>i<length (p # ps).
      getitem ((p # ps) ! i) ''geometry'' = Inr (geometry ((Feature g a # fs) ! i)) \<and>
      getitem ((p # ps) ! i) ''attributes'' = Inr (attributes ((Feature g a # fs) ! i))"
  proof (intro allI impI)
    fix i assume "i < length (p # ps)"
    then show "getitem ((p # ps) ! i) ''geometry'' = Inr (geometry ((Feature g a # fs) ! i)) \<and>
      getitem ((p # ps) ! i) ''attributes'' = Inr (attributes ((Feature g a # fs) ! i))"
      using ga fs(3) by (cases i) (simp_all add: Feature_def)
  qed
  ultimately show ?case by blast
qed

text \<open>
  C1. A response whose \<^verbatim>\<open>saPolygons\<close> entry holds the list \<open>polys\<close> of polygon features
  (dictionaries with a geometry and attributes), a \<^verbatim>\<open>geometryType\<close> and a
  \<^verbatim>\<open>spatialReference\<close> is read back without an exception as a feature set with
  exactly \<open>length polys\<close> features: the i-th feature has the geometry and the attributes
  of the i-th polygon of the response, and the feature set has the response's geometry
  type and spatial reference.
\<close>

theorem response_round_trip:
  assumes "getitem result ''saPolygons'' = Inr sa"
    and "getitem sa ''features'' = Inr (PList polys)"
    and "getitem sa ''geometryType'' = Inr gt"
    and "getitem sa ''spatialReference'' = Inr sr"
    and "\<forall>p\<in>set polys. \<exists>g a. getitem p ''geometry'' = Inr g \<and> getitem p ''attributes'' = Inr a"
  shows "\<exists>fset. service_area_fset_of result = Inr fset \<and>
           length (features fset) = length polys \<and>
           (\<forall>i<length polys.
              getitem (polys ! i) ''geometry'' = Inr (geometry (features fset ! i)) \<and>
              getitem (polys ! i) ''attributes'' = Inr (attributes (features fset ! i))) \<and>
           geometry_type fset = gt \<and> spatial_reference fset = sr"
proof -
  from poly_feat_loop_appends [OF assms(5), of "[]"] obtain fs where
    fs: "poly_feat_loop polys [] = Inr fs" "length fs = length polys"
        "\<forall>i<length polys. getitem (polys ! i) ''geometry'' = Inr (geometry (fs ! i)) \<and>
                            getitem (polys ! i) ''attributes'' = Inr (attributes (fs ! i))"
    by auto
  have "poly_feat_list_of result = Inr fs"
    using assms(1,2) fs(1) by (simp add: poly_feat_list_of_def)
  then have "service_area_fset_of result = Inr (FeatureSet fs gt sr)"
    using assms(1,3,4) by (simp add: service_area_fset_of_def)
  then show ?thesis
    using fs(2,3) by (simp add: FeatureSet_def)
qed

theorem response_round_trip_witness:
  "\<exists>fset. service_area_fset_of sample_response = Inr fset \<and>
      length (features fset) = 2 \<and>
      geometry (features fset ! 0) = PDict [(''rings'', PList [PList [PNum 15, PNum 0]])] \<and>
      attributes (features fset ! 1) =
        PDict [(''ObjectID'', PNum 1), (''FromBreak'', PNum 5), (''ToBreak'', PNum 10)] \<and>
      geometry_type fset = PStr ''esriGeometryPolygon'' \<and>
      spatial_reference fset = PDict [(''wkid'', PNum 4326), (''latestWkid'', PNum 4326)]"
proof -
  let ?sa = "PDict [(''geometryType'', PStr ''esriGeometryPolygon''),
                    (''spatialReference'', PDict [(''wkid'', PNum 4326), (''latestWkid'', PNum 4326)]),
                    (''features'', PList [sample_polygon 10 15, sample_polygon 5 10]),
                    (''fieldAliases'', PDict [])]"
  let ?polys = "[sample_polygon 10 15, sample_polygon 5 10]"
  have h1: "getitem sample_response ''saPolygons'' = Inr ?sa"
    by (simp add: sample_response_def)
  have h2: "getitem ?sa ''features'' = Inr (PList ?polys)"
    by simp
  have h3: "getitem ?sa ''geometryType'' = Inr (PStr ''esriGeometryPolygon'')"
    by simp
  have h4: "getitem ?sa ''spatialReference'' =
      Inr (PDict [(''wkid'', PNum 4326), (''latestWkid'', PNum 4326)])"
    by simp
  have h5: "\<forall>p\<in>set ?polys. \<exists>g a. getitem p ''geometry'' = Inr g \<and> getitem p ''attributes'' = Inr a"
    by (simp add: sample_polygon_def)
  from response_round_trip [OF h1 h2 h3 h4 h5] obtain fset where
    r: "service_area_fset_of sample_response = Inr fset"
       "length (features fset) = length ?polys"
       "\<forall>i<length ?polys.
          getitem (?polys ! i) ''geometry'' = Inr (geometry (features fset ! i)) \<and>
          getitem (?polys ! i) ''attributes'' = Inr (attributes (features fset ! i))"
       "geometry_type fset = PStr ''esriGeometryPolygon''"
       "spatial_reference fset = PDict [(''wkid'', PNum 4326), (''latestWkid'', PNum 4326)]"
    by blast
  from r(3) [rule_format, of 0]
  have "getitem (?polys ! 0) ''geometry'' = Inr (geometry (features fset ! 0))"
    by simp
  then have g0: "geometry (features fset ! 0) = PDict [(''rings'', PList [PList [PNum 15, PNum 0]])]"
    by (simp add: sample_polygon_def)
  from r(3) [rule_format, of 1]
  have "getitem (?polys ! 1) ''attributes'' = Inr (attributes (features fset ! 1))"
    by simp
  then have a1: "attributes (features fset ! 1) =
      PDict [(''ObjectID'', PNum 1), (''FromBreak'', PNum 5), (''ToBreak'', PNum 10)]"
    by (simp add: sample_polygon_def)
  show ?thesis
    using r(1,2,4,5) g0 a1 by simp
qed

section \<open>The two conversions\<close>

text \<open>The inner loop of the time-of-day cell computes what the loop of the single solve computes.\<close>

lemma SD_poly_feat_loop_eq: "SD_poly_feat_loop polys acc = poly_feat_loop polys acc"
  by (induction polys arbitrary: acc) (simp_all add: and_then_def split: sum.splits)

lemma and_then_assoc: "and_then (and_then m f) g = and_then m (\<lambda>x. and_then (f x) g)"
  by (cases m) simp_all

lemma SD_fset_of_result_eq: "SD_fset_of_result result = service_area_fset_of result"
  by (simp add: SD_fset_of_result_def service_area_fset_of_def poly_feat_list_of_def
      SD_poly_feat_loop_eq and_then_assoc)

text \<open>
  The outer loop appends, response by response, what the conversion of the single solve
  yields, and raises as soon as that conversion raises.
\<close>

lemma SD_fset_loop_iff:
  "SD_fset_loop results acc = Inr out \<longleftrightarrow>
     (\<exists>fsets. out = acc @ fsets \<and>
        list_all2 (\<lambda>r fset. service_area_fset_of r = Inr fset) results fsets)"
proof (induction results arbitrary: acc)
  case Nil
  then show ?case by auto
next
  case (Cons r rs)
  show ?case
  proof (cases "service_area_fset_of r")
    case (Inl e)
    then show ?thesis by (simp add: SD_fset_of_result_eq list_all2_Cons1)
  next
    case (Inr fs)
    then show ?thesis
      by (auto simp add: SD_fset_of_result_eq Cons.IH list_all2_Cons1)
  qed
qed

text \<open>
  C6. The conversion inside the loop of the time-of-day cell and the conversion after the
  single solve are the same function of the response: on every response both raise the
  same exception or both return the same feature set. Hence the loop over one response
  returns exactly the feature set of the single conversion, and over a list of responses
  it returns the list of their single conversions (and only returns if each of them
  does).
\<close>

theorem conversions_agree:
  "SD_fset_of_result result = service_area_fset_of result \<and>
   SD_fset_loop [result] [] = and_then (service_area_fset_of result) (\<lambda>fset. Inr [fset]) \<and>
   (SD_fset_loop results [] = Inr SD_fset_list \<longleftrightarrow>
      list_all2 (\<lambda>r fset. service_area_fset_of r = Inr fset) results SD_fset_list)"
  by (simp add: SD_fset_of_result_eq SD_fset_loop_iff)

theorem conversions_agree_witness:
  "SD_fset_of_result sample_response = service_area_fset_of sample_response \<and>
   SD_fset_loop [sample_response] [] =
     and_then (service_area_fset_of sample_response) (\<lambda>fset. Inr [fset]) \<and>
   SD_fset_of_result PNone = Inl TypeError"
proof -
  have "service_area_fset_of PNone = Inl TypeError"
    by (simp add: service_area_fset_of_def poly_feat_list_of_def)
  then show ?thesis
    using conversions_agree [of sample_response "[]" "[]"] conversions_agree [of PNone "[]" "[]"]
    by simp
qed

section \<open>Travel-mode selection\<close>

text \<open>On a catalog whose entries all have a name, the comprehension is a filter.\<close>

lemma driving_time_modes_filter:
  assumes "\<forall>t\<in>set ts. \<exists>n. getitem t ''name'' = Inr n"
  shows "driving_time_modes ts =
           Inr (filter (\<lambda>t. getitem t ''name'' = Inr (PStr ''Driving Time'')) ts)"
  using assms
proof (induction ts)
  case Nil
  then show ?case by simp
next
  case (Cons t ts)
  then obtain n where "getitem t ''name'' = Inr n" by auto
  with Cons show ?case by simp
qed

text \<open>
  C10. On a catalog of named travel modes, the selection returns the first entry whose
  name is exactly \<^verbatim>\<open>Driving Time\<close> (no entry before it has that name); if no entry has
  that name it raises \<^verbatim>\<open>IndexError\<close>, and no default mode is returned.
\<close>

theorem truck_mode_first_driving_time:
  assumes "getitem travel_modes ''supportedTravelModes'' = Inr (PList catalog)"
    and "\<forall>t\<in>set catalog. \<exists>n. getitem t ''name'' = Inr n"
  shows "(\<forall>before t after.
            catalog = before @ t # after \<and>
            getitem t ''name'' = Inr (PStr ''Driving Time'') \<and>
            (\<forall>u\<in>set before. getitem u ''name'' \<noteq> Inr (PStr ''Driving Time'')) \<longrightarrow>
            truck_mode_of travel_modes = Inr t) \<and>
         ((\<forall>t\<in>set catalog. getitem t ''name'' \<noteq> Inr (PStr ''Driving Time'')) \<longrightarrow>
            truck_mode_of travel_modes = Inl IndexError)"
proof -
  let ?P = "\<lambda>t. getitem t ''name'' = Inr (PStr ''Driving Time'')"
  have sel: "truck_mode_of travel_modes = getitem0 (filter ?P catalog)"
    using assms by (simp add: truck_mode_of_def driving_time_modes_filter)
  have first: "truck_mode_of travel_modes = Inr t"
    if "catalog = before @ t # after" "?P t" "\<forall>u\<in>set before. \<not> ?P u" for before t after
  proof -
    from that(3) have "filter ?P before = []" by (simp add: filter_empty_conv)
    with that(1,2) have "filter ?P catalog = t # filter ?P after" by simp
    with sel show ?thesis by (simp add: getitem0_def)
  qed
  have none: "truck_mode_of travel_modes = Inl IndexError" if "\<forall>t\<in>set catalog. \<not> ?P t"
  proof -
    from that have "filter ?P catalog = []" by (simp add: filter_empty_conv)
    with sel show ?thesis by (simp add: getitem0_def)
  qed
  from first none show ?thesis by blast
qed

theorem truck_mode_first_driving_time_witness:
  "truck_mode_of sample_travel_modes = Inr (travel_mode_named ''Driving Time'' 3) \<and>
   truck_mode_of walking_only_travel_modes = Inl IndexError"
proof -
  let ?c1 = "[travel_mode_named ''Walking Time'' 1, travel_mode_named ''Rural Driving Distance'' 2,
              travel_mode_named ''Driving Time'' 3, travel_mode_named ''Driving Distance'' 4,
              travel_mode_named ''Driving Time'' 5]"
  let ?c2 = "[travel_mode_named ''Walking Time'' 1, travel_mode_named ''Driving time'' 2]"
  have a1: "getitem sample_travel_modes ''supportedTravelModes'' = Inr (PList ?c1)"
    by (simp add: sample_travel_modes_def)
  have a2: "\<forall>t\<in>set ?c1. \<exists>n. getitem t ''name'' = Inr n"
    by (simp add: travel_mode_named_def)
  have b1: "getitem walking_only_travel_modes ''supportedTravelModes'' = Inr (PList ?c2)"
    by (simp add: walking_only_travel_modes_def)
  have b2: "\<forall>t\<in>set ?c2. \<exists>n. getitem t ''name'' = Inr n"
    by (simp add: travel_mode_named_def)
  have split: "?c1 = [travel_mode_named ''Walking Time'' 1, travel_mode_named ''Rural Driving Distance'' 2]
      @ travel_mode_named ''Driving Time'' 3
      # [travel_mode_named ''Driving Distance'' 4, travel_mode_named ''Driving Time'' 5]"
    by simp
  have first: "truck_mode_of sample_travel_modes = Inr (travel_mode_named ''Driving Time'' 3)"
    using truck_mode_first_driving_time [OF a1 a2, THEN conjunct1, rule_format,
        of "[travel_mode_named ''Walking Time'' 1, travel_mode_named ''Rural Driving Distance'' 2]"
           "travel_mode_named ''Driving Time'' 3"
           "[travel_mode_named ''Driving Distance'' 4, travel_mode_named ''Driving Time'' 5]"]
    by (simp add: travel_mode_named_def)
  have none: "truck_mode_of walking_only_travel_modes = Inl IndexError"
    using truck_mode_first_driving_time [OF b1 b2, THEN conjunct2]
    by (simp add: travel_mode_named_def)
  from first none show ?thesis by simp
qed

section \<open>A geocoding miss\<close>

text \<open>
  The claim C5 as stated, that an empty candidate list is signalled as a dedicated
  no-match condition, does not hold: on the empty list neither geocoding cell ends with
  \<open>NoMatch\<close>.
\<close>

theorem empty_geocode_no_match_counterexample:
  "fst (draw_facility [] []) \<noteq> Inl NoMatch \<and> fst (draw_balboa_park [] []) \<noteq> Some NoMatch"
  by (simp add: draw_facility_def facility_fset_of_def draw_balboa_park_def getitem0_def)

text \<open>
  C5, amended. When the geocoder returns an empty candidate list, taking the first
  candidate raises \<^verbatim>\<open>IndexError\<close>. The cell ends there: no location is read, no
  feature is built and nothing is drawn (the events are the ones before the cell).
\<close>

theorem empty_geocode_raises_index_error:
  "draw_facility [] tr = (Inl IndexError, tr) \<and> draw_balboa_park [] tr = (Some IndexError, tr)"
  by (simp add: draw_facility_def facility_fset_of_def draw_balboa_park_def getitem0_def)

theorem empty_geocode_raises_index_error_witness:
  "draw_facility [] [ClearGraphics Map1] = (Inl IndexError, [ClearGraphics Map1]) \<and>
   draw_balboa_park [] [ClearGraphics Map1] = (Some IndexError, [ClearGraphics Map1])"
  using empty_geocode_raises_index_error [of "[ClearGraphics Map1]"] by simp

section \<open>The rendering loop\<close>

text \<open>The lookup in \<^verbatim>\<open>colors\<close> succeeds on the numbers 5, 10 and 15 only.\<close>

lemma colors_getitem_Inr:
  "colors_getitem tb = Inr c \<longleftrightarrow>
     (tb = PNum 5 \<and> c = PList [PNum 0, PNum 128, PNum 0, PNum 90]) \<or>
     (tb = PNum 10 \<and> c = PList [PNum 255, PNum 255, PNum 0, PNum 90]) \<or>
     (tb = PNum 15 \<and> c = PList [PNum 255, PNum 0, PNum 0, PNum 90])"
  by (cases tb) (auto simp add: colors_def split: if_splits)

lemma colors_getitem_KeyError:
  assumes "hashable tb" and "tb \<noteq> PNum 5" and "tb \<noteq> PNum 10" and "tb \<noteq> PNum 15"
  shows "colors_getitem tb = Inl KeyError"
  using assms by (cases tb) (auto simp add: colors_def split: if_splits)

lemma table_color_lookup:
  assumes "to_break_in_table sa"
  shows "\<exists>tb c. getitem (attributes sa) ''ToBreak'' = Inr tb \<and> colors_getitem tb = Inr c \<and>
           table_color sa = Some c"
  using assms by (auto simp add: to_break_in_table_def table_color_def colors_def)

lemma update_color_entry: "map_of (AList.update ''color'' c d) ''color'' = Some c"
  by (simp add: update_conv')

text \<open>One pass of the loop body: a draw call, or the exception of the lookup.\<close>

lemma render_loop_step:
  assumes "getitem (attributes sa) ''ToBreak'' = Inr tb" and "colors_getitem tb = Inr c"
  shows "render_loop fmt fill_symbol (sa # rest) (h, tr) =
           render_loop fmt fill_symbol rest
             (setitem h fill_symbol ''color'' c,
              tr @ [Draw Map1 (Geom (geometry sa))
                      (Some (fill_symbol, AList.update ''color'' c (h fill_symbol)))
                      (Some (PDict [(''title'', PStr ''Service area''),
                                    (''content'', PStr (fmt tb @ '' minutes''))]))])"
  using assms by (simp add: Let_def setitem_def)

lemma render_loop_drawn:
  assumes "to_break_in_table sa"
  shows "\<exists>h1 e. render_loop fmt fill_symbol (sa # rest) (h, tr) =
             render_loop fmt fill_symbol rest (h1, tr @ [e]) \<and>
           drawn_shape e = Some (Geom (geometry sa)) \<and>
           fill_color_passed e = table_color sa"
proof -
  from table_color_lookup [OF assms] obtain tb c where
    l: "getitem (attributes sa) ''ToBreak'' = Inr tb" "colors_getitem tb = Inr c"
       "table_color sa = Some c"
    by blast
  let ?e = "Draw Map1 (Geom (geometry sa))
              (Some (fill_symbol, AList.update ''color'' c (h fill_symbol)))
              (Some (PDict [(''title'', PStr ''Service area''),
                            (''content'', PStr (fmt tb @ '' minutes''))]))"
  have "render_loop fmt fill_symbol (sa # rest) (h, tr) =
          render_loop fmt fill_symbol rest (setitem h fill_symbol ''color'' c, tr @ [?e])"
    by (rule render_loop_step [OF l(1,2)])
  moreover have "drawn_shape ?e = Some (Geom (geometry sa))"
    by simp
  moreover have "fill_color_passed ?e = table_color sa"
    using l(3) by (simp add: update_color_entry)
  ultimately show ?thesis by blast
qed

lemma render_loop_raises:
  assumes "and_then (getitem (attributes sa) ''ToBreak'') colors_getitem = Inl e"
  shows "render_loop fmt fill_symbol (sa # rest) (h, tr) = (Some e, h, tr)"
  using assms by simp

lemma render_loop_KeyError:
  assumes "attributes sa = PDict kvs"
    and "\<forall>tb. map_of kvs ''ToBreak'' = Some tb \<longrightarrow> hashable tb"
    and "\<not> to_break_in_table sa"
  shows "render_loop fmt fill_symbol (sa # rest) (h, tr) = (Some KeyError, h, tr)"
proof (cases "map_of kvs ''ToBreak''")
  case None
  with assms(1) have "and_then (getitem (attributes sa) ''ToBreak'') colors_getitem = Inl KeyError"
    by simp
  then show ?thesis by (rule render_loop_raises)
next
  case (Some tb)
  with assms(1) have tb: "getitem (attributes sa) ''ToBreak'' = Inr tb"
    by simp
  from Some assms(2) have "hashable tb"
    by simp
  moreover from tb assms(3) have "tb \<noteq> PNum 5" "tb \<noteq> PNum 10" "tb \<noteq> PNum 15"
    by (auto simp add: to_break_in_table_def)
  ultimately have "colors_getitem tb = Inl KeyError"
    by (rule colors_getitem_KeyError)
  with tb have "and_then (getitem (attributes sa) ''ToBreak'') colors_getitem = Inl KeyError"
    by simp
  then show ?thesis by (rule render_loop_raises)
qed

text \<open>
  C2. Let the attributes of every polygon be a dictionary whose \<^verbatim>\<open>ToBreak\<close> entry, if
  there is one, is hashable (a number, string, boolean or \<^verbatim>\<open>None\<close>, as the field
  values of a feature are). The loop draws the polygons in order up to
  the first one whose \<^verbatim>\<open>ToBreak\<close> is not 5, 10 or 15; each draw call is given the
  geometry of its polygon and a symbol whose color is the entry of the fixed table for
  the polygon's \<^verbatim>\<open>ToBreak\<close> (5: [0,128,0,90], 10: [255,255,0,90], 15: [255,0,0,90]).
  If all polygons are in the table the loop ends without an exception; otherwise it
  raises \<^verbatim>\<open>KeyError\<close> at the first polygon that is not (or has no \<^verbatim>\<open>ToBreak\<close>),
  and that polygon is not drawn.
\<close>

theorem fill_color_by_to_break:
  assumes "\<forall>sa\<in>set polys. \<exists>kvs. attributes sa = PDict kvs \<and>
             (\<forall>tb. map_of kvs ''ToBreak'' = Some tb \<longrightarrow> hashable tb)"
  shows "\<exists>h1 draws.
           render_loop fmt fill_symbol polys (h, tr) =
             (if list_all to_break_in_table polys then None else Some KeyError, h1, tr @ draws) \<and>
           map drawn_shape draws =
             map (\<lambda>sa. Some (Geom (geometry sa))) (takeWhile to_break_in_table polys) \<and>
           map fill_color_passed draws = map table_color (takeWhile to_break_in_table polys)"
  using assms
proof (induction polys arbitrary: h tr)
  case Nil
  then show ?case by simp
next
  case (Cons sa rest)
  show ?case
  proof (cases "to_break_in_table sa")
    case True
    from render_loop_drawn [OF True, of fmt fill_symbol rest h tr] obtain h1 e where
      e: "render_loop fmt fill_symbol (sa # rest) (h, tr) =
            render_loop fmt fill_symbol rest (h1, tr @ [e])"
         "drawn_shape e = Some (Geom (geometry sa))" "fill_color_passed e = table_color sa"
      by blast
    from Cons.prems have "\<forall>sa\<in>set rest. \<exists>kvs. attributes sa = PDict kvs \<and>
        (\<forall>tb. map_of kvs ''ToBreak'' = Some tb \<longrightarrow> hashable tb)"
      by simp
    from Cons.IH [OF this, of h1 "tr @ [e]"] obtain h2 draws where
      r: "render_loop fmt fill_symbol rest (h1, tr @ [e]) =
            (if list_all to_break_in_table rest then None else Some KeyError, h2, (tr @ [e]) @ draws)"
         "map drawn_shape draws =
            map (\<lambda>sa. Some (Geom (geometry sa))) (takeWhile to_break_in_table rest)"
         "map fill_color_passed draws = map table_color (takeWhile to_break_in_table rest)"
      by blast
    have "render_loop fmt fill_symbol (sa # rest) (h, tr) =
        (if list_all to_break_in_table (sa # rest) then None else Some KeyError, h2, tr @ (e # draws))"
      using e(1) r(1) True by simp
    moreover have "map drawn_shape (e # draws) =
        map (\<lambda>sa. Some (Geom (geometry sa))) (takeWhile to_break_in_table (sa # rest))"
      using e(2) r(2) True by simp
    moreover have "map fill_color_passed (e # draws) =
        map table_color (takeWhile to_break_in_table (sa # rest))"
      using e(3) r(3) True by simp
    ultimately show ?thesis by blast
  next
    case False
    from Cons.prems obtain kvs where
      "attributes sa = PDict kvs" "\<forall>tb. map_of kvs ''ToBreak'' = Some tb \<longrightarrow> hashable tb"
      by auto
    from render_loop_KeyError [OF this False]
    have "render_loop fmt fill_symbol (sa # rest) (h, tr) = (Some KeyError, h, tr)" .
    with False show ?thesis by simp
  qed
qed


theorem fill_color_by_to_break_witness:
  "\<exists>h1 draws.
     render_loop sample_fmt 7
       [sample_feature 10 15, sample_feature 5 10, sample_feature 15 20, sample_feature 0 5]
       (sample_store, []) = (Some KeyError, h1, draws) \<and>
     map fill_color_passed draws =
       [Some (PList [PNum 255, PNum 0, PNum 0, PNum 90]),
        Some (PList [PNum 255, PNum 255, PNum 0, PNum 90])]"
proof -
  let ?polys = "[sample_feature 10 15, sample_feature 5 10, sample_feature 15 20, sample_feature 0 5]"
  have hyp: "\<forall>sa\<in>set ?polys. \<exists>kvs. attributes sa = PDict kvs \<and>
      (\<forall>tb. map_of kvs ''ToBreak'' = Some tb \<longrightarrow> hashable tb)"
    by (simp add: sample_feature_def Feature_def)
  have t15: "to_break_in_table (sample_feature 10 15)"
    and t10: "to_break_in_table (sample_feature 5 10)"
    and t20: "\<not> to_break_in_table (sample_feature 15 20)"
    by (simp_all add: sample_feature_def Feature_def to_break_in_table_def)
  have c15: "table_color (sample_feature 10 15) = Some (PList [PNum 255, PNum 0, PNum 0, PNum 90])"
    and c10: "table_color (sample_feature 5 10) = Some (PList [PNum 255, PNum 255, PNum 0, PNum 90])"
    by (simp_all add: sample_feature_def Feature_def table_color_def)
  from fill_color_by_to_break [OF hyp, of sample_fmt 7 sample_store "[]"] obtain h1 draws where
    r: "render_loop sample_fmt 7 ?polys (sample_store, []) =
          (if list_all to_break_in_table ?polys then None else Some KeyError, h1, [] @ draws)"
       "map fill_color_passed draws = map table_color (takeWhile to_break_in_table ?polys)"
    by (elim exE conjE) (rule that)
  from r(1) have "render_loop sample_fmt 7 ?polys (sample_store, []) = (Some KeyError, h1, draws)"
    by (simp add: t15 t10 t20 del: render_loop.simps)
  moreover from r(2) have "map fill_color_passed draws =
      [Some (PList [PNum 255, PNum 0, PNum 0, PNum 90]),
       Some (PList [PNum 255, PNum 255, PNum 0, PNum 90])]"
    by (simp add: t15 t10 t20 c15 c10)
  ultimately show ?thesis
    by (intro exI conjI)
qed

lemma looked_up_is_table_color:
  assumes "getitem (attributes sa) ''ToBreak'' = Inr tb" and "colors_getitem tb = Inr c"
  shows "table_color sa = Some c \<and> c \<noteq> PList [PNum 115, PNum 76, PNum 0, PNum 255]"
  using assms by (auto simp add: colors_getitem_Inr table_color_def)

lemma and_then_Inr_iff: "and_then m f = Inr y \<longleftrightarrow> (\<exists>x. m = Inr x \<and> f x = Inr y)"
  by (cases m) simp_all

text \<open>
  C8. Whatever the polygons are, every draw call of the loop receives the dictionary at
  the one address \<open>fill_symbol\<close>; the loop changes no other dictionary of the store, and
  of this one only the entry \<^verbatim>\<open>color\<close> (so \<^verbatim>\<open>type\<close> and \<^verbatim>\<open>style\<close> stay
  as they were). When the loop has run over at least one polygon without an exception,
  the \<^verbatim>\<open>color\<close> entry is the table color of the last polygon's \<^verbatim>\<open>ToBreak\<close>,
  which is not the initial [115,76,0,255]; over no polygon the store is unchanged.
\<close>

theorem fill_symbol_shared:
  "\<exists>err h1 draws.
     render_loop fmt fill_symbol polys (h, tr) = (err, h1, tr @ draws) \<and>
     (\<forall>e\<in>set draws. \<exists>sh d popup. e = Draw Map1 sh (Some (fill_symbol, d)) popup) \<and>
     (\<forall>a. a \<noteq> fill_symbol \<longrightarrow> h1 a = h a) \<and>
     (\<forall>k. k \<noteq> ''color'' \<longrightarrow> map_of (h1 fill_symbol) k = map_of (h fill_symbol) k) \<and>
     (polys = [] \<longrightarrow> h1 = h) \<and>
     (err = None \<and> polys \<noteq> [] \<longrightarrow>
        (\<exists>c. table_color (last polys) = Some c \<and> map_of (h1 fill_symbol) ''color'' = Some c \<and>
             c \<noteq> PList [PNum 115, PNum 76, PNum 0, PNum 255]))"
proof (induction polys arbitrary: h tr)
  case Nil
  show ?case by simp
next
  case (Cons sa rest)
  show ?case
  proof (cases "and_then (getitem (attributes sa) ''ToBreak'') colors_getitem")
    case (Inl e)
    have "render_loop fmt fill_symbol (sa # rest) (h, tr) = (Some e, h, tr @ [])"
      using render_loop_raises [OF Inl] by simp
    then show ?thesis
      by (intro exI [of _ "Some e"] exI [of _ h] exI [of _ "[]"]) simp
  next
    case (Inr c)
    then obtain tb where
      tb: "getitem (attributes sa) ''ToBreak'' = Inr tb" "colors_getitem tb = Inr c"
      by (auto simp add: and_then_Inr_iff)
    let ?h = "setitem h fill_symbol ''color'' c"
    let ?e = "Draw Map1 (Geom (geometry sa))
                (Some (fill_symbol, AList.update ''color'' c (h fill_symbol)))
                (Some (PDict [(''title'', PStr ''Service area''),
                              (''content'', PStr (fmt tb @ '' minutes''))]))"
    have step: "render_loop fmt fill_symbol (sa # rest) (h, tr) =
        render_loop fmt fill_symbol rest (?h, tr @ [?e])"
      by (rule render_loop_step [OF tb])
    from Cons.IH [of ?h "tr @ [?e]"] obtain err h1 draws where
      r: "render_loop fmt fill_symbol rest (?h, tr @ [?e]) = (err, h1, (tr @ [?e]) @ draws)"
         "\<forall>e\<in>set draws. \<exists>sh d popup. e = Draw Map1 sh (Some (fill_symbol, d)) popup"
         "\<forall>a. a \<noteq> fill_symbol \<longrightarrow> h1 a = ?h a"
         "\<forall>k. k \<noteq> ''color'' \<longrightarrow> map_of (h1 fill_symbol) k = map_of (?h fill_symbol) k"
         "rest = [] \<longrightarrow> h1 = ?h"
         "err = None \<and> rest \<noteq> [] \<longrightarrow>
            (\<exists>c. table_color (last rest) = Some c \<and> map_of (h1 fill_symbol) ''color'' = Some c \<and>
                 c \<noteq> PList [PNum 115, PNum 76, PNum 0, PNum 255])"
      by (elim exE conjE) (rule that)
    have 1: "render_loop fmt fill_symbol (sa # rest) (h, tr) = (err, h1, tr @ (?e # draws))"
      using step r(1) by simp
    have 2: "\<forall>e\<in>set (?e # draws). \<exists>sh d popup. e = Draw Map1 sh (Some (fill_symbol, d)) popup"
      using r(2) by simp
    have 3: "\<forall>a. a \<noteq> fill_symbol \<longrightarrow> h1 a = h a"
      using r(3) by (simp add: setitem_def)
    have 4: "\<forall>k. k \<noteq> ''color'' \<longrightarrow> map_of (h1 fill_symbol) k = map_of (h fill_symbol) k"
      using r(4) by (simp add: setitem_def update_conv')
    have 5: "sa # rest = [] \<longrightarrow> h1 = h"
      by simp
    have 6: "err = None \<and> sa # rest \<noteq> [] \<longrightarrow>
        (\<exists>c. table_color (last (sa # rest)) = Some c \<and> map_of (h1 fill_symbol) ''color'' = Some c \<and>
             c \<noteq> PList [PNum 115, PNum 76, PNum 0, PNum 255])"
    proof (cases "rest = []")
      case True
      with r(5) have "h1 = ?h" by simp
      then have "map_of (h1 fill_symbol) ''color'' = Some c"
        by (simp add: setitem_def update_color_entry)
      with looked_up_is_table_color [OF tb] True show ?thesis by simp
    next
      case False
      with r(6) show ?thesis by simp
    qed
    show ?thesis
      by (intro exI [of _ err] exI [of _ h1] exI [of _ "?e # draws"] conjI)
        (rule 1, rule 2, rule 3, rule 4, rule 5, rule 6)
  qed
qed


theorem fill_symbol_shared_witness:
  "\<exists>h1 draws.
     render_loop sample_fmt 7 [sample_feature 10 15, sample_feature 5 10, sample_feature 0 5]
       (sample_store, []) = (None, h1, draws) \<and>
     length draws = 3 \<and>
     map_of (h1 7) ''color'' = Some (PList [PNum 0, PNum 128, PNum 0, PNum 90]) \<and>
     map_of (h1 7) ''type'' = Some (PStr ''esriSFS'') \<and>
     map_of (h1 7) ''style'' = Some (PStr ''esriSFSSolid'') \<and>
     h1 8 = []"
proof -
  let ?polys = "[sample_feature 10 15, sample_feature 5 10, sample_feature 0 5]"
  from fill_symbol_shared [of sample_fmt 7 ?polys sample_store "[]"] obtain err h1 draws where
    r: "render_loop sample_fmt 7 ?polys (sample_store, []) = (err, h1, [] @ draws)"
       "\<forall>a. a \<noteq> 7 \<longrightarrow> h1 a = sample_store a"
       "\<forall>k. k \<noteq> ''color'' \<longrightarrow> map_of (h1 7) k = map_of (sample_store 7) k"
       "err = None \<and> ?polys \<noteq> [] \<longrightarrow>
          (\<exists>c. table_color (last ?polys) = Some c \<and> map_of (h1 7) ''color'' = Some c \<and>
               c \<noteq> PList [PNum 115, PNum 76, PNum 0, PNum 255])"
    by (elim exE conjE) (rule that)
  have run: "fst (render_loop sample_fmt 7 ?polys (sample_store, [])) = None"
    "length (snd (snd (render_loop sample_fmt 7 ?polys (sample_store, [])))) = 3"
    by (simp_all add: sample_feature_def Feature_def colors_def Let_def)
  with r(1) have err: "err = None" and len: "length draws = 3"
    by simp_all
  have "table_color (last ?polys) = Some (PList [PNum 0, PNum 128, PNum 0, PNum 90])"
    by (simp add: sample_feature_def Feature_def table_color_def)
  with r(4) err have color: "map_of (h1 7) ''color'' = Some (PList [PNum 0, PNum 128, PNum 0, PNum 90])"
    by auto
  from r(3) have "map_of (h1 7) ''type'' = map_of (sample_store 7) ''type''"
    and "map_of (h1 7) ''style'' = map_of (sample_store 7) ''style''"
    by simp_all
  then have ts: "map_of (h1 7) ''type'' = Some (PStr ''esriSFS'')"
    "map_of (h1 7) ''style'' = Some (PStr ''esriSFSSolid'')"
    by (simp_all add: sample_store_def fill_symbol_literal_def)
  from r(2) have other: "h1 8 = []"
    by (simp add: sample_store_def)
  from r(1) err len color ts other show ?thesis by simp
qed

section \<open>The animation\<close>

lemma pass_events_Cons:
  "pass_events (label # labels) (fset # fsets) =
     [Print label, Draw Map2 (FSet fset) None None, Sleep 1] @ pass_events labels fsets"
  by (simp add: pass_events_def)

lemma pass_events_Nil [simp]: "pass_events labels [] = []"
  by (simp add: pass_events_def)

text \<open>The inner loop from counter \<open>j\<close> on prints the labels from the \<open>j\<close>-th on.\<close>

lemma draw_loop_events:
  assumes "j + length fsets \<le> length labels"
  shows "draw_loop labels j fsets tr = (None, tr @ pass_events (drop j labels) fsets)"
  using assms
proof (induction fsets arbitrary: j tr)
  case Nil
  then show ?case by simp
next
  case (Cons fset rest)
  then have j: "j < length labels" and rest: "Suc j + length rest \<le> length labels"
    by simp_all
  from j have d: "drop j labels = labels ! j # drop (Suc j) labels"
    by (simp add: Cons_nth_drop_Suc)
  from j have "draw_loop labels j (fset # rest) tr =
      draw_loop labels (Suc j) rest (tr @ [Print (labels ! j), Draw Map2 (FSet fset) None None, Sleep 1])"
    by (simp add: getitem_at_def)
  also have "\<dots> = (None, (tr @ [Print (labels ! j), Draw Map2 (FSet fset) None None, Sleep 1])
      @ pass_events (drop (Suc j) labels) rest)"
    by (rule Cons.IH [OF rest])
  finally show ?case
    by (simp add: d pass_events_Cons)
qed

lemma animate_loop_events:
  assumes "length fsets \<le> length labels"
  shows "animate_loop n labels fsets tr =
           (None, tr @ concat (replicate n (ClearGraphics Map2 # pass_events labels fsets)))"
proof (induction n arbitrary: tr)
  case 0
  show ?case by simp
next
  case (Suc n)
  from assms have "draw_loop labels 0 fsets (tr @ [ClearGraphics Map2]) =
      (None, (tr @ [ClearGraphics Map2]) @ pass_events (drop 0 labels) fsets)"
    by (intro draw_loop_events) simp
  then show ?case
    by (simp add: Suc.IH)
qed

lemma animate_events:
  assumes "length fsets \<le> length labels"
  shows "animate n labels fsets tr =
           (None, tr @ [ClearGraphics Map2, Sleep 2] @
                  concat (replicate n (ClearGraphics Map2 # pass_events labels fsets)))"
  using animate_loop_events [OF assms] by (simp add: animate_def)

text \<open>
  With more feature sets than labels, the print for the first feature set that has no
  label raises, before that feature set is drawn.
\<close>

lemma draw_loop_out_of_labels:
  "draw_loop labels (length labels) (fset # rest) tr = (Some IndexError, tr)"
  by (simp add: getitem_at_def)

text \<open>What the widget shows while a pass is drawn.\<close>

lemma visible_append: "visible w (xs @ ys) = foldl (show_event w) (visible w xs) ys"
  by (simp add: visible_def)

lemma prefix_pass_shown:
  assumes "prefix p (pass_events labels fsets)"
  shows "\<exists>k\<le>length fsets. foldl (show_event Map2) shown p = shown @ map FSet (take k fsets)"
  using assms
proof (induction fsets arbitrary: labels shown p)
  case Nil
  then show ?case by simp
next
  case (Cons fset rest)
  show ?case
  proof (cases labels)
    case Nil
    with Cons.prems show ?thesis by (simp add: pass_events_def)
  next
    case (Cons label ls)
    with Cons.prems have
      p: "prefix p (Print label # Draw Map2 (FSet fset) None None # Sleep 1 # pass_events ls rest)"
      by (simp add: pass_events_Cons)
    then consider "p = []" | "p = [Print label]" | "p = [Print label, Draw Map2 (FSet fset) None None]"
      | q where "p = Print label # Draw Map2 (FSet fset) None None # Sleep 1 # q"
          "prefix q (pass_events ls rest)"
      by (auto simp add: prefix_Cons)
    then show ?thesis
    proof cases
      case 1
      then show ?thesis by (intro exI [of _ 0]) simp
    next
      case 2
      then show ?thesis by (intro exI [of _ 0]) simp
    next
      case 3
      then show ?thesis by (intro exI [of _ 1]) simp
    next
      case 4
      from Cons.IH [OF 4(2), of "shown @ [FSet fset]"] obtain k where
        k: "k \<le> length rest"
           "foldl (show_event Map2) (shown @ [FSet fset]) q = (shown @ [FSet fset]) @ map FSet (take k rest)"
        by blast
      show ?thesis
        using 4(1) k by (intro exI [of _ "Suc k"]) simp
    qed
  qed
qed

lemma prefix_passes_shown:
  assumes "length fsets \<le> length labels"
    and "prefix p (concat (replicate n (ClearGraphics Map2 # pass_events labels fsets)))"
    and "p \<noteq> []"
  shows "\<exists>k\<le>length fsets. foldl (show_event Map2) shown p = map FSet (take k fsets)"
  using assms(2,3)
proof (induction n arbitrary: p shown)
  case 0
  then show ?case by simp
next
  case (Suc n)
  let ?pass = "ClearGraphics Map2 # pass_events labels fsets"
  from Suc.prems(1) have "prefix p (?pass @ concat (replicate n ?pass))"
    by simp
  then have split: "prefix p ?pass \<or> (\<exists>q. p = ?pass @ q \<and> prefix q (concat (replicate n ?pass)))"
    unfolding prefix_append .
  show ?case
  proof (cases "prefix p ?pass")
    case True
    with Suc.prems(2) obtain q where q: "p = ClearGraphics Map2 # q" "prefix q (pass_events labels fsets)"
      unfolding prefix_Cons by blast
    from prefix_pass_shown [OF q(2), of "[]"] q(1) show ?thesis by simp
  next
    case False
    with split obtain q where q: "p = ?pass @ q" "prefix q (concat (replicate n ?pass))"
      by blast
    from False q(1) have "q \<noteq> []"
      by auto
    from Suc.IH [OF q(2) this] q(1) show ?thesis by simp
  qed
qed

text \<open>
  C9. Let there be no more feature sets than labels. The animation clears the map and
  waits, then runs exactly 3 passes; each pass first clears the map and then, for the
  j-th feature set, prints the j-th label, draws the feature set and waits. At every
  moment from the first event on, the map shows the first \<open>k\<close> feature sets of the list,
  each once, for some \<open>k\<close>: what the pass under way has drawn, and nothing of an earlier
  pass.
\<close>

theorem animation_passes:
  assumes "length SD_fset_list \<le> length labels"
  shows "\<exists>events.
           animate loop labels SD_fset_list tr = (None, tr @ events) \<and>
           events = [ClearGraphics Map2, Sleep 2] @
             concat (replicate 3 (ClearGraphics Map2 #
               concat (map (\<lambda>(label, fset). [Print label, Draw Map2 (FSet fset) None None, Sleep 1])
                         (zip labels SD_fset_list)))) \<and>
           (\<forall>p. prefix p events \<and> p \<noteq> [] \<longrightarrow>
              (\<exists>k\<le>length SD_fset_list. visible Map2 (tr @ p) = map FSet (take k SD_fset_list)))"
proof -
  let ?passes = "concat (replicate 3 (ClearGraphics Map2 # pass_events labels SD_fset_list))"
  let ?events = "[ClearGraphics Map2, Sleep 2] @ ?passes"
  have run: "animate loop labels SD_fset_list tr = (None, tr @ ?events)"
    using animate_events [OF assms, of 3 tr] by (simp add: loop_def)
  have shown: "\<exists>k\<le>length SD_fset_list. visible Map2 (tr @ p) = map FSet (take k SD_fset_list)"
    if p: "prefix p ?events" "p \<noteq> []" for p
  proof -
    from p(1) have "prefix p [ClearGraphics Map2, Sleep 2] \<or>
        (\<exists>q. p = [ClearGraphics Map2, Sleep 2] @ q \<and> prefix q ?passes)"
      unfolding prefix_append .
    with p(2) consider "p = [ClearGraphics Map2]" | "p = [ClearGraphics Map2, Sleep 2]"
      | q where "p = [ClearGraphics Map2, Sleep 2] @ q" "prefix q ?passes" "q \<noteq> []"
      by (cases "prefix p [ClearGraphics Map2, Sleep 2]") (auto simp add: prefix_Cons)
    then show ?thesis
    proof cases
      case 1
      then show ?thesis by (intro exI [of _ 0]) (simp add: visible_append)
    next
      case 2
      then show ?thesis by (intro exI [of _ 0]) (simp add: visible_append)
    next
      case 3
      from prefix_passes_shown [OF assms 3(2,3), of "[]"] 3(1) show ?thesis
        by (simp add: visible_append)
    qed
  qed
  show ?thesis
    using run shown by (intro exI [of _ ?events]) (simp add: pass_events_def)
qed


theorem animation_passes_witness:
  "\<exists>events.
     animate loop time_labels [sample_fset 5, sample_fset 10] [] = (None, events) \<and>
     length events = 23 \<and>
     take 5 events = [ClearGraphics Map2, Sleep 2, ClearGraphics Map2, Print ''6 am'',
                      Draw Map2 (FSet (sample_fset 5)) None None] \<and>
     (\<exists>k\<le>2. visible Map2 (take 13 events) = map FSet (take k [sample_fset 5, sample_fset 10]))"
proof -
  let ?fsets = "[sample_fset 5, sample_fset 10]"
  have hyp: "length ?fsets \<le> length time_labels"
    by (simp add: time_labels_def)
  from animation_passes [OF hyp, of "[]"] obtain events where
    r: "animate loop time_labels ?fsets [] = (None, [] @ events)"
       "events = [ClearGraphics Map2, Sleep 2] @
          concat (replicate 3 (ClearGraphics Map2 #
            concat (map (\<lambda>(label, fset). [Print label, Draw Map2 (FSet fset) None None, Sleep 1])
                      (zip time_labels ?fsets))))"
       "\<forall>p. prefix p events \<and> p \<noteq> [] \<longrightarrow>
          (\<exists>k\<le>length ?fsets. visible Map2 ([] @ p) = map FSet (take k ?fsets))"
    by (elim exE conjE) (rule that)
  from r(2) have len: "length events = 23"
    by (simp add: time_labels_def numeral_3_eq_3)
  from r(2) have first: "take 5 events = [ClearGraphics Map2, Sleep 2, ClearGraphics Map2,
      Print ''6 am'', Draw Map2 (FSet (sample_fset 5)) None None]"
    by (simp add: time_labels_def numeral_3_eq_3)
  have "prefix (take 13 events) events"
    by (rule take_is_prefix)
  moreover from len have "take 13 events \<noteq> []"
    by auto
  ultimately have "\<exists>k\<le>length ?fsets. visible Map2 ([] @ take 13 events) = map FSet (take k ?fsets)"
    using r(3) by blast
  then obtain k where "k \<le> length ?fsets"
    and k: "visible Map2 (take 13 events) = map FSet (take k ?fsets)"
    by auto
  then have "k \<le> 2"
    by simp
  with k have shown: "\<exists>k\<le>2. visible Map2 (take 13 events) = map FSet (take k ?fsets)"
    by (intro exI [of _ k] conjI)
  from r(1) len first shown show ?thesis
    by (intro exI [of _ events]) simp
qed

section \<open>The time-of-day cells\<close>

lemma solve_events_Cons:
  "solve_events (r # requests) (result # results) =
     [Request r, Response result] @ solve_events requests results"
  by (simp add: solve_events_def)

lemma solve_events_Nil [simp]: "solve_events [] results = []"
  by (simp add: solve_events_def)

text \<open>A call that raises ends the loop: the samples after it are not requested.\<close>

lemma solve_loop_raises:
  assumes "solve s (daytime_request fset daytime) = (Inl e, s1)"
  shows "solve_loop solve fset (daytime # rest) sa_results (s, tr) =
           (Inl e, s1, tr @ [Request (daytime_request fset daytime)])"
  using assms by simp

text \<open>
  If the solver returns on the calls of the run (the request of each sample, in the
  state the calls before it left), the loop makes exactly these calls, in order, and
  appends the responses in that order.
\<close>

lemma solve_loop_events:
  assumes "\<forall>answer\<in>set (answers solve s (map (daytime_request fset) daytimes)).
             \<exists>result fs. answer = Inr result \<and> service_area_fset_of result = Inr fs"
  shows "\<exists>results s1.
           solve_loop solve fset daytimes acc (s, tr) =
             (Inr (acc @ results), s1,
              tr @ solve_events (map (daytime_request fset) daytimes) results) \<and>
           length results = length daytimes \<and>
           map Inr results = answers solve s (map (daytime_request fset) daytimes) \<and>
           (\<forall>r\<in>set results. \<exists>fs. service_area_fset_of r = Inr fs)"
  using assms
proof (induction daytimes arbitrary: acc s tr)
  case Nil
  show ?case by simp
next
  case (Cons daytime rest)
  let ?req = "daytime_request fset daytime"
  obtain answer s1 where call: "solve s ?req = (answer, s1)"
    by (cases "solve s ?req")
  then have unfold: "answers solve s (map (daytime_request fset) (daytime # rest)) =
      answer # answers solve s1 (map (daytime_request fset) rest)"
    by simp
  from Cons.prems have all:
    "\<forall>x\<in>set (answer # answers solve s1 (map (daytime_request fset) rest)).
       \<exists>result fs. x = Inr result \<and> service_area_fset_of result = Inr fs"
    unfolding unfold .
  then obtain result fs where
    a: "answer = Inr result" "service_area_fset_of result = Inr fs"
    by auto
  from all have later:
    "\<forall>answer\<in>set (answers solve s1 (map (daytime_request fset) rest)).
       \<exists>result fs. answer = Inr result \<and> service_area_fset_of result = Inr fs"
    by simp
  from Cons.IH [OF later, of "acc @ [result]" "tr @ [Request ?req, Response result]"]
  obtain results s2 where
    r: "solve_loop solve fset rest (acc @ [result]) (s1, tr @ [Request ?req, Response result]) =
          (Inr ((acc @ [result]) @ results), s2,
           (tr @ [Request ?req, Response result]) @
             solve_events (map (daytime_request fset) rest) results)"
       "length results = length rest"
       "map Inr results = answers solve s1 (map (daytime_request fset) rest)"
       "\<forall>r\<in>set results. \<exists>fs. service_area_fset_of r = Inr fs"
    by (elim exE conjE) (rule that)
  have 1: "solve_loop solve fset (daytime # rest) acc (s, tr) =
      (Inr (acc @ (result # results)), s2,
       tr @ solve_events (map (daytime_request fset) (daytime # rest)) (result # results))"
    using call a(1) r(1) by (simp add: solve_events_Cons)
  have 2: "length (result # results) = length (daytime # rest)"
    using r(2) by simp
  have 3: "map Inr (result # results) =
      answers solve s (map (daytime_request fset) (daytime # rest))"
    using unfold a(1) r(3) by simp
  have 4: "\<forall>r\<in>set (result # results). \<exists>fs. service_area_fset_of r = Inr fs"
    using a(2) r(4) by simp
  show ?case
    by (intro exI [of _ "result # results"] exI [of _ s2] conjI) (rule 1, rule 2, rule 3, rule 4)
qed

lemma SD_fset_loop_returns:
  assumes "\<forall>r\<in>set results. \<exists>fs. service_area_fset_of r = Inr fs"
  shows "\<exists>fsets. SD_fset_loop results [] = Inr fsets \<and>
           list_all2 (\<lambda>r fs. service_area_fset_of r = Inr fs) results fsets"
proof -
  from assms have "\<exists>fsets. list_all2 (\<lambda>r fs. service_area_fset_of r = Inr fs) results fsets"
  proof (induction results)
    case Nil
    show ?case by simp
  next
    case (Cons r rs)
    then obtain fs fsets where "service_area_fset_of r = Inr fs"
      "list_all2 (\<lambda>r fs. service_area_fset_of r = Inr fs) rs fsets"
      by auto
    then have "list_all2 (\<lambda>r fs. service_area_fset_of r = Inr fs) (r # rs) (fs # fsets)"
      by simp
    then show ?case ..
  qed
  then obtain fsets where l: "list_all2 (\<lambda>r fs. service_area_fset_of r = Inr fs) results fsets" ..
  then have "SD_fset_loop results [] = Inr fsets"
    by (simp add: SD_fset_loop_iff)
  with l show ?thesis by blast
qed

text \<open>
  C3. Let \<open>requests\<close> be, sample by sample in list order, the request that carries the
  facility, the breaks 5, 10 and 15, the direction from the facility, no travel mode,
  the sample as its \<^verbatim>\<open>time_of_day\<close> and \<^verbatim>\<open>time_of_day_is_utc=False\<close>. Let the solver
  return, on each of these requests made in the state the requests before it left, a
  response that reads back as a feature set, and let there be no more samples than
  labels. Then the three cells make exactly these solve calls, one per sample and in the
  order of the samples, each call answered before the next is made; they leave as many
  responses and as many feature sets as there are samples, the i-th response being the
  solver's answer to the i-th request and the i-th feature set read from the i-th
  response; and every one of the 3 passes of the animation draws the feature sets in that
  order.
\<close>

theorem time_of_day_samples:
  assumes "\<forall>answer\<in>set (answers solve s
               (map (\<lambda>daytime. \<lparr>facilities = fset, default_breaks = [5, 10, 15],
                                travel_direction = ''esriNATravelDirectionFromFacility'',
                                travel_mode = None, time_of_day = Some daytime,
                                time_of_day_is_utc = Some False\<rparr>) daytimes)).
             \<exists>result fs. answer = Inr result \<and> service_area_fset_of result = Inr fs"
    and "length daytimes \<le> length labels"
  shows "\<exists>requests sa_results SD_fset_list s1.
           requests =
             map (\<lambda>daytime. \<lparr>facilities = fset, default_breaks = [5, 10, 15],
                              travel_direction = ''esriNATravelDirectionFromFacility'',
                              travel_mode = None, time_of_day = Some daytime,
                              time_of_day_is_utc = Some False\<rparr>) daytimes \<and>
           time_of_day_cells solve fset daytimes loop labels (s, tr) =
             (Inr (sa_results, SD_fset_list), s1,
              tr @ solve_events requests sa_results @ [ClearGraphics Map2, Sleep 2] @
                concat (replicate 3 (ClearGraphics Map2 # pass_events labels SD_fset_list))) \<and>
           length sa_results = length daytimes \<and>
           length SD_fset_list = length daytimes \<and>
           map Inr sa_results = answers solve s requests \<and>
           list_all2 (\<lambda>result fs. service_area_fset_of result = Inr fs) sa_results SD_fset_list"
proof -
  let ?requests = "map (daytime_request fset) daytimes"
  have req: "map (\<lambda>daytime. \<lparr>facilities = fset, default_breaks = [5, 10, 15],
                              travel_direction = ''esriNATravelDirectionFromFacility'',
                              travel_mode = None, time_of_day = Some daytime,
                              time_of_day_is_utc = Some False\<rparr>) daytimes = ?requests"
    by (simp add: daytime_request_def)
  from assms(1) have returns: "\<forall>answer\<in>set (answers solve s ?requests).
      \<exists>result fs. answer = Inr result \<and> service_area_fset_of result = Inr fs"
    unfolding req .
  from solve_loop_events [OF returns, of "[]" tr] obtain sa_results s1 where
    a: "solve_loop solve fset daytimes [] (s, tr) =
          (Inr ([] @ sa_results), s1, tr @ solve_events ?requests sa_results)"
       "length sa_results = length daytimes"
       "map Inr sa_results = answers solve s ?requests"
       "\<forall>r\<in>set sa_results. \<exists>fs. service_area_fset_of r = Inr fs"
    by (elim exE conjE) (rule that)
  from SD_fset_loop_returns [OF a(4)] obtain SD_fset_list where
    b: "SD_fset_loop sa_results [] = Inr SD_fset_list"
       "list_all2 (\<lambda>r fs. service_area_fset_of r = Inr fs) sa_results SD_fset_list"
    by blast
  from b(2) a(2) have len: "length SD_fset_list = length daytimes"
    by (simp add: list_all2_lengthD [symmetric])
  with assms(2) have "length SD_fset_list \<le> length labels"
    by simp
  from animate_events [OF this, of 3 "tr @ solve_events ?requests sa_results"]
  have c: "animate loop labels SD_fset_list (tr @ solve_events ?requests sa_results) =
      (None, (tr @ solve_events ?requests sa_results) @ [ClearGraphics Map2, Sleep 2] @
         concat (replicate 3 (ClearGraphics Map2 # pass_events labels SD_fset_list)))"
    by (simp add: loop_def)
  have 1: "time_of_day_cells solve fset daytimes loop labels (s, tr) =
      (Inr (sa_results, SD_fset_list), s1,
       tr @ solve_events ?requests sa_results @ [ClearGraphics Map2, Sleep 2] @
         concat (replicate 3 (ClearGraphics Map2 # pass_events labels SD_fset_list)))"
    using a(1) b(1) c by (simp add: time_of_day_cells_def)
  show ?thesis
    unfolding req
    by (intro exI [of _ ?requests] exI [of _ sa_results] exI [of _ SD_fset_list]
        exI [of _ s1] conjI)
      (rule refl, rule 1, rule a(2), rule len, rule a(3), rule b(2))
qed

theorem time_of_day_samples_witness:
  "\<exists>requests sa_results SD_fset_list s1 tr1.
     time_of_day_cells sample_solve sample_facility (times_of_day sample_timestamp) loop
       time_labels (0, []) = (Inr (sa_results, SD_fset_list), s1, tr1) \<and>
     map time_of_day requests =
       [Some 1497099600000, Some 1497114000000, Some 1497128400000, Some 1497142800000,
        Some 1497157200000] \<and>
     take 4 tr1 = [Request (requests ! 0), Response (sa_results ! 0),
                   Request (requests ! 1), Response (sa_results ! 1)] \<and>
     sa_results = [sample_answer 0 (Some 1497099600000), sample_answer 1 (Some 1497114000000),
                   sample_answer 2 (Some 1497128400000), sample_answer 3 (Some 1497142800000),
                   sample_answer 4 (Some 1497157200000)] \<and>
     length SD_fset_list = 5"
proof -
  let ?daytimes = "times_of_day sample_timestamp"
  let ?requests = "map (\<lambda>daytime. \<lparr>facilities = sample_facility, default_breaks = [5, 10, 15],
                              travel_direction = ''esriNATravelDirectionFromFacility'',
                              travel_mode = None, time_of_day = Some daytime,
                              time_of_day_is_utc = Some False\<rparr>) ?daytimes"
  have conv: "\<exists>fs. service_area_fset_of (sample_answer calls daytime) = Inr fs" for calls daytime
    by (simp add: service_area_fset_of_def poly_feat_list_of_def sample_answer_def sample_polygon_def)
  have run: "answers sample_solve 0 ?requests =
      [Inr (sample_answer 0 (Some 1497099600000)), Inr (sample_answer 1 (Some 1497114000000)),
       Inr (sample_answer 2 (Some 1497128400000)), Inr (sample_answer 3 (Some 1497142800000)),
       Inr (sample_answer 4 (Some 1497157200000))]"
    by (simp add: times_of_day_def sample_timestamp_def sample_solve_def eval_nat_numeral)
  have h1: "\<forall>answer\<in>set (answers sample_solve 0 ?requests).
      \<exists>result fs. answer = Inr result \<and> service_area_fset_of result = Inr fs"
    unfolding run using conv by simp
  have h2: "length ?daytimes \<le> length time_labels"
    by (simp add: times_of_day_def time_labels_def)
  from time_of_day_samples [OF h1 h2, of "[]"] obtain requests sa_results SD_fset_list s1
    where r: "requests = ?requests"
      "time_of_day_cells sample_solve sample_facility ?daytimes loop time_labels (0, []) =
         (Inr (sa_results, SD_fset_list), s1,
          [] @ solve_events requests sa_results @ [ClearGraphics Map2, Sleep 2] @
            concat (replicate 3 (ClearGraphics Map2 # pass_events time_labels SD_fset_list)))"
      "length SD_fset_list = length ?daytimes"
      "map Inr sa_results = answers sample_solve 0 requests"
    by (elim exE conjE) (rule that)
  from r(4) have "map Inr sa_results =
      [Inr (sample_answer 0 (Some 1497099600000)), Inr (sample_answer 1 (Some 1497114000000)),
       Inr (sample_answer 2 (Some 1497128400000)), Inr (sample_answer 3 (Some 1497142800000)),
       Inr (sample_answer 4 (Some 1497157200000)) :: pyerror + pyval]"
    unfolding r(1) run .
  then have res: "sa_results =
      [sample_answer 0 (Some 1497099600000), sample_answer 1 (Some 1497114000000),
       sample_answer 2 (Some 1497128400000), sample_answer 3 (Some 1497142800000),
       sample_answer 4 (Some 1497157200000)]"
    by (auto simp add: map_eq_Cons_conv)
  from r(1) have tod: "map time_of_day requests =
      [Some 1497099600000, Some 1497114000000, Some 1497128400000, Some 1497142800000,
       Some 1497157200000]"
    by (simp add: times_of_day_def sample_timestamp_def)
  from r(1) have "length requests = 5"
    by (simp add: times_of_day_def)
  then obtain q0 q1 q2 q3 q4 where q: "requests = [q0, q1, q2, q3, q4]"
    by (auto simp add: length_Suc_conv eval_nat_numeral)
  have first: "take 4 (solve_events requests sa_results @ [ClearGraphics Map2, Sleep 2] @
      concat (replicate 3 (ClearGraphics Map2 # pass_events time_labels SD_fset_list))) =
      [Request (requests ! 0), Response (sa_results ! 0),
       Request (requests ! 1), Response (sa_results ! 1)]"
    unfolding q res by (simp add: solve_events_def)
  from r(3) have len: "length SD_fset_list = 5"
    by (simp add: times_of_day_def)
  show ?thesis
    by (intro exI [of _ requests] exI [of _ sa_results] exI [of _ SD_fset_list] exI [of _ s1]
        exI [of _ "solve_events requests sa_results @ [ClearGraphics Map2, Sleep 2] @
          concat (replicate 3 (ClearGraphics Map2 # pass_events time_labels SD_fset_list))"]
        conjI)
      (use r(2) in simp, rule tod, rule first, rule res, rule len)
qed

end
